theory Spec2Isabelle
  imports Main "HOL-Library.Multiset"
begin

section \<open>Values, symbols and the external collaborators\<close>

text \<open>
  \<^verbatim>\<open>src/backend/server.js\<close> holds two servers: a first one of forty lines, with no expiry,
  no attempt counter and no validation of the request, and after it the documented server
  (from the header comment on), which is the one the module exports. This theory is about
  the documented server. It keeps one table of challenge sessions and answers two
  requests, \<^verbatim>\<open>POST /start-auth\<close> and \<^verbatim>\<open>POST /verify-auth\<close>. Node runs each handler to completion before the next one
  starts, so a handler is a function from the table to a response and the next table.

  A symbol of the grid is a JavaScript string holding one emoji. It is written here by the
  name of its code point (\<open>''U+1F34E''\<close> is the red apple); only equality of symbols and their
  concatenation by \<^verbatim>\<open>join\<close> matter to the code.
\<close>

type_synonym symbol = string

text \<open>
  A value of a parsed JSON body, or \<open>Undefined\<close> for a field that is absent. A number is
  kept as the text that JavaScript prints for it, which is all the code does with a number;
  an object is the list of its own properties.
\<close>

datatype jsval =
  Undefined | Null | Bool bool | Num string | Str string
  | Arr "jsval list" | Obj "(string \<times> jsval) list"

text \<open>\<^verbatim>\<open>!v || typeof v !== 'string'\<close>: the empty string is falsy.\<close>

fun not_a_nonempty_string :: "jsval \<Rightarrow> bool" where
  "not_a_nonempty_string (Str s) = (s = [])"
| "not_a_nonempty_string _ = True"

text \<open>\<^verbatim>\<open>!input || !Array.isArray(input) || input.length !== 3\<close>: every array is truthy.\<close>

fun not_an_array_of_3 :: "jsval \<Rightarrow> bool" where
  "not_an_array_of_3 (Arr xs) = (length xs \<noteq> 3)"
| "not_an_array_of_3 _ = True"

fun the_Str :: "jsval \<Rightarrow> string" where
  "the_Str (Str s) = s"
| "the_Str _ = []"

fun the_Arr :: "jsval \<Rightarrow> jsval list" where
  "the_Arr (Arr xs) = xs"
| "the_Arr _ = []"

text \<open>
  \<^verbatim>\<open>Array.prototype.join\<close>. It converts each element to a string and may throw while doing
  so; \<open>None\<close> is the exception. The texts of the elements are put together by \<open>join_texts\<close>.
\<close>

fun join_texts :: "string \<Rightarrow> string option list \<Rightarrow> string option" where
  "join_texts sep [] = Some []"
| "join_texts sep [x] = x"
| "join_texts sep (x # y # ys) =
     (case x of
        None \<Rightarrow> None
      | Some a \<Rightarrow> (case join_texts sep (y # ys) of None \<Rightarrow> None | Some b \<Rightarrow> Some (a @ sep @ b)))"

text \<open>
  The text that \<^verbatim>\<open>join\<close> takes for one element: nothing for \<^verbatim>\<open>undefined\<close> and \<^verbatim>\<open>null\<close>, and
  the string conversion of the element otherwise. A nested array is converted by its own
  \<^verbatim>\<open>join(',')\<close>. An object of a JSON body has no callable property of its own: the
  conversion finds \<^verbatim>\<open>Object.prototype.toString\<close> and yields \<^verbatim>\<open>[object Object]\<close>, unless an own
  property named \<^verbatim>\<open>toString\<close> hides it, and then it throws a TypeError. \<open>stack\<close> is the
  number of nested calls of \<^verbatim>\<open>join\<close> that the call stack has room for; a deeper nesting
  throws a RangeError. How much room there is depends on the engine, so \<open>stack\<close> is a
  parameter, and every theorem below holds for every value of it.
\<close>

fun join_element :: "nat \<Rightarrow> jsval \<Rightarrow> string option" where
  "join_element stack Undefined = Some []"
| "join_element stack Null = Some []"
| "join_element stack (Bool b) = Some (if b then ''true'' else ''false'')"
| "join_element stack (Num text) = Some text"
| "join_element stack (Str s) = Some s"
| "join_element stack (Obj properties) =
     (if ''toString'' \<in> fst ` set properties then None else Some ''[object Object]'')"
| "join_element stack (Arr xs) =
     (if stack = 0 then None
      else join_texts '','' (map (join_element (stack - 1)) xs))"

definition js_join :: "nat \<Rightarrow> string \<Rightarrow> jsval list \<Rightarrow> string option" where
  "js_join stack sep xs =
     (if stack = 0 then None else join_texts sep (map (join_element (stack - 1)) xs))"

text \<open>
  \<^verbatim>\<open>hashVisualPattern\<close>. The digest is Node's \<^verbatim>\<open>crypto.createHash('sha256')\<close>, a library
  outside the repository: it is the parameter \<open>sha256\<close> of every definition that hashes.
  \<open>None\<close> is the exception of \<^verbatim>\<open>pattern.join('|')\<close>.
\<close>

definition hashVisualPattern ::
  "nat \<Rightarrow> (string \<Rightarrow> string) \<Rightarrow> jsval list \<Rightarrow> string option" where
  "hashVisualPattern stack sha256 pattern = map_option sha256 (js_join stack ''|'' pattern)"

text \<open>
  \<^verbatim>\<open>crypto.randomInt(min, max)\<close> returns an integer of \<open>[min, max)\<close> and throws a RangeError
  when \<open>max \<le> min\<close>. The random source is the sequence \<open>rnd\<close> of its raw draws; the \<open>k\<close>-th
  call reduces the \<open>k\<close>-th draw into the range. \<open>None\<close> is the RangeError.
\<close>

definition randomInt :: "(nat \<Rightarrow> nat) \<Rightarrow> nat \<Rightarrow> nat \<Rightarrow> nat \<Rightarrow> nat option" where
  "randomInt rnd k lo hi = (if hi \<le> lo then None else Some (lo + rnd k mod (hi - lo)))"

section \<open>Configuration\<close>

definition SESSION_TIMEOUT_MS :: int where
  "SESSION_TIMEOUT_MS = 60000"

definition EMOJI_POOL :: "symbol list" where
  "EMOJI_POOL =
     [''U+1F34E'', ''U+1F3A7'', ''U+1F525'', ''U+1F680'', ''U+2B50'', ''U+1F512'',
      ''U+1F511'', ''U+1F48E'', ''U+1F3AF'', ''U+1F31F'', ''U+26A1'', ''U+1F510'']"

text \<open>The demo secret that \<^verbatim>\<open>/start-auth\<close> hard-codes: apple, headphones, fire.\<close>

definition demo_secretPattern :: "symbol list" where
  "demo_secretPattern = [''U+1F34E'', ''U+1F3A7'', ''U+1F525'']"

text \<open>
  An entry of \<^verbatim>\<open>USER_DATABASE\<close>. Its \<^verbatim>\<open>createdAt\<close> (the start time of the process, as text)
  is read by no handler and is left out.
\<close>

record user_entry =
  u_userId :: string
  u_secretHash :: string

definition USER_DATABASE :: "string \<rightharpoonup> user_entry" where
  "USER_DATABASE =
     [''U123'' \<mapsto> \<lparr>u_userId = ''U123'',
        u_secretHash = ''71d9d0d740e5d44281516dc085c9ad814e4ea9570dcdcfd01cbb1971862113c8''\<rparr>]"

text \<open>
  \<^verbatim>\<open>USER_DATABASE[user_id]\<close> is a property read on an object literal: a name that is not a
  key of the literal is still looked up on \<^verbatim>\<open>Object.prototype\<close>, whose members are truthy
  and have no \<^verbatim>\<open>secretHash\<close>.
\<close>

definition Object_prototype :: "string list" where
  "Object_prototype =
     [''constructor'', ''__defineGetter__'', ''__defineSetter__'', ''hasOwnProperty'',
      ''__lookupGetter__'', ''__lookupSetter__'', ''isPrototypeOf'', ''propertyIsEnumerable'',
      ''toString'', ''valueOf'', ''__proto__'', ''toLocaleString'']"

datatype property = Own user_entry | Inherited

definition USER_DATABASE_get :: "string \<Rightarrow> property option" where
  "USER_DATABASE_get user_id =
     (case USER_DATABASE user_id of
        Some u \<Rightarrow> Some (Own u)
      | None \<Rightarrow> if user_id \<in> set Object_prototype then Some Inherited else None)"

text \<open>\<^verbatim>\<open>user.secretHash\<close>; \<open>None\<close> is \<^verbatim>\<open>undefined\<close>.\<close>

fun secretHash_of :: "property \<Rightarrow> string option" where
  "secretHash_of (Own u) = Some (u_secretHash u)"
| "secretHash_of Inherited = None"

section \<open>Sessions\<close>

record session =
  sessionId :: string
  userId :: string
  secretHash :: "string option"
  grid :: "symbol list"
  createdAt :: int
  expiresAt :: int
  used :: bool
  attempts :: int
  maxAttempts :: int

type_synonym session_table = "string \<rightharpoonup> session"

section \<open>The grid generator\<close>

text \<open>
  \<^verbatim>\<open>shuffleArray\<close>: for \<open>i\<close> from the last index down to 1, draw \<open>j\<close> in \<open>[0, i + 1)\<close> and
  swap the entries \<open>i\<close> and \<open>j\<close>. \<open>k\<close> counts the calls of the random source so far.
\<close>

fun shuffle_loop :: "(nat \<Rightarrow> nat) \<Rightarrow> nat \<Rightarrow> nat \<Rightarrow> 'a list \<Rightarrow> 'a list" where
  "shuffle_loop rnd k 0 shuffled = shuffled"
| "shuffle_loop rnd k (Suc i) shuffled =
     (let j = rnd k mod (Suc i + 1)
      in shuffle_loop rnd (Suc k) i (shuffled[Suc i := shuffled ! j, j := shuffled ! Suc i]))"

definition shuffleArray :: "(nat \<Rightarrow> nat) \<Rightarrow> nat \<Rightarrow> 'a list \<Rightarrow> 'a list" where
  "shuffleArray rnd k array = shuffle_loop rnd k (length array - 1) array"

text \<open>
  What a call has done after a bounded number of loop iterations: it has returned, it has
  thrown, or it is still inside its loop.
\<close>

datatype 'a outcome = Returned 'a | Threw | Running

text \<open>
  The loop \<^verbatim>\<open>while (gridEmojis.length < 9)\<close> of \<^verbatim>\<open>generateShuffledGrid\<close>. Nothing in the
  loop bounds the number of iterations, so the model runs it for at most \<open>fuel\<close> iterations
  and answers \<open>Running\<close> when the loop has not ended by then. It returns the grid and the
  number of draws consumed.
\<close>

fun fill_loop ::
  "nat \<Rightarrow> (nat \<Rightarrow> nat) \<Rightarrow> nat \<Rightarrow> symbol list \<Rightarrow> symbol list \<Rightarrow> (symbol list \<times> nat) outcome" where
  "fill_loop 0 rnd k availableEmojis gridEmojis =
     (if length gridEmojis < 9 then Running else Returned (gridEmojis, k))"
| "fill_loop (Suc fuel) rnd k availableEmojis gridEmojis =
     (if length gridEmojis < 9 then
        (case randomInt rnd k 0 (length availableEmojis) of
           None \<Rightarrow> Threw
         | Some randomIndex \<Rightarrow>
             (let emoji = availableEmojis ! randomIndex
              in fill_loop fuel rnd (Suc k) availableEmojis
                   (if emoji \<in> set gridEmojis then gridEmojis else gridEmojis @ [emoji])))
      else Returned (gridEmojis, k))"

text \<open>\<^verbatim>\<open>generateShuffledGrid\<close>, with the pool (the constant \<^verbatim>\<open>EMOJI_POOL\<close>) as a parameter.\<close>

definition generateShuffledGrid ::
  "nat \<Rightarrow> (nat \<Rightarrow> nat) \<Rightarrow> symbol list \<Rightarrow> symbol list \<Rightarrow> symbol list outcome" where
  "generateShuffledGrid fuel rnd pool secretPattern =
     (let gridEmojis = secretPattern;
          availableEmojis = filter (\<lambda>e. e \<notin> set secretPattern) pool
      in case fill_loop fuel rnd 0 availableEmojis gridEmojis of
           Returned (filled, k) \<Rightarrow> Returned (shuffleArray rnd k filled)
         | Threw \<Rightarrow> Threw
         | Running \<Rightarrow> Running)"

section \<open>The handlers\<close>

datatype verdict = PASS | FAIL

datatype error_code =
  INVALID_REQUEST | USER_NOT_FOUND | INVALID_SESSION | SESSION_USED | SESSION_EXPIRED
  | MAX_ATTEMPTS | INVALID_PATTERN | INTERNAL_ERROR

text \<open>
  The JSON answers, with the HTTP status. The free-text \<^verbatim>\<open>message\<close> and the \<^verbatim>\<open>verified_at\<close>
  time stamp of a PASS are left out; \<open>pass_user_id\<close> is the field \<^verbatim>\<open>user_id\<close> of a PASS.
\<close>

datatype start_response =
  Start_OK string "symbol list" int
  | Start_Error nat error_code

record verify_response =
  status :: nat
  result :: "verdict option"
  error :: "error_code option"
  attempts_remaining :: "int option"
  pass_user_id :: "string option"

definition failure :: "nat \<Rightarrow> verdict option \<Rightarrow> error_code \<Rightarrow> verify_response" where
  "failure st v e =
     \<lparr>status = st, result = v, error = Some e, attempts_remaining = None, pass_user_id = None\<rparr>"

text \<open>
  \<^verbatim>\<open>POST /start-auth\<close>. \<open>uuid\<close> is the value of \<^verbatim>\<open>crypto.randomUUID()\<close> and \<open>now\<close> that of
  \<^verbatim>\<open>Date.now()\<close>. A throw inside the handler is caught and answered with status 500; a grid
  loop that does not end leaves the handler without an answer (\<open>None\<close>).
\<close>

definition start_auth ::
  "nat \<Rightarrow> (nat \<Rightarrow> nat) \<Rightarrow> string \<Rightarrow> int \<Rightarrow> jsval \<Rightarrow> session_table
     \<Rightarrow> (start_response \<times> session_table) option" where
  "start_auth fuel rnd uuid now user_id sessions =
     (if not_a_nonempty_string user_id then Some (Start_Error 400 INVALID_REQUEST, sessions)
      else case USER_DATABASE_get (the_Str user_id) of
        None \<Rightarrow> Some (Start_Error 404 USER_NOT_FOUND, sessions)
      | Some user \<Rightarrow>
          (let sessionId = uuid;
               secretPattern = demo_secretPattern
           in case generateShuffledGrid fuel rnd EMOJI_POOL secretPattern of
                Running \<Rightarrow> None
              | Threw \<Rightarrow> Some (Start_Error 500 INTERNAL_ERROR, sessions)
              | Returned shuffledGrid \<Rightarrow>
                  (let session =
                         \<lparr>sessionId = sessionId, userId = the_Str user_id,
                          secretHash = secretHash_of user, grid = shuffledGrid,
                          createdAt = now, expiresAt = now + SESSION_TIMEOUT_MS,
                          used = False, attempts = 0, maxAttempts = 3\<rparr>
                   in Some (Start_OK sessionId shuffledGrid (SESSION_TIMEOUT_MS div 1000),
                            sessions(sessionId \<mapsto> session)))))"

text \<open>
  \<^verbatim>\<open>POST /verify-auth\<close>. The session object is shared with the table, so each assignment
  to one of its fields is written back to the table at once. The body of the handler is
  inside \<^verbatim>\<open>try\<close>: when \<^verbatim>\<open>hashVisualPattern\<close> throws, the attempt is already counted, and the
  \<^verbatim>\<open>catch\<close> answers with status 500 and leaves the table as it is at that point.
\<close>

definition verify_auth ::
  "(string \<Rightarrow> string) \<Rightarrow> nat \<Rightarrow> int \<Rightarrow> jsval \<Rightarrow> jsval \<Rightarrow> session_table
     \<Rightarrow> verify_response \<times> session_table" where
  "verify_auth sha256 stack now session_id input sessions =
     (if not_a_nonempty_string session_id then (failure 400 None INVALID_REQUEST, sessions)
      else if not_an_array_of_3 input then (failure 400 None INVALID_REQUEST, sessions)
      else case sessions (the_Str session_id) of
        None \<Rightarrow> (failure 401 (Some FAIL) INVALID_SESSION, sessions)
      | Some session \<Rightarrow>
          if used session then
            (failure 401 (Some FAIL) SESSION_USED, sessions(the_Str session_id := None))
          else if now > expiresAt session then
            (failure 401 (Some FAIL) SESSION_EXPIRED, sessions(the_Str session_id := None))
          else if attempts session \<ge> maxAttempts session then
            (failure 401 (Some FAIL) MAX_ATTEMPTS, sessions(the_Str session_id := None))
          else
            (let session1 = session\<lparr>attempts := attempts session + 1\<rparr>;
                 sessions1 = sessions(the_Str session_id \<mapsto> session1)
             in case hashVisualPattern stack sha256 (the_Arr input) of
                  None \<Rightarrow> (failure 500 None INTERNAL_ERROR, sessions1)
                | Some inputHash \<Rightarrow>
                    (let isMatch = (Some inputHash = secretHash session1)
                     in if isMatch then
                          (let session2 = session1\<lparr>used := True\<rparr>;
                               sessions2 = sessions1(the_Str session_id \<mapsto> session2)
                           in (\<lparr>status = 200, result = Some PASS, error = None,
                                 attempts_remaining = None,
                                 pass_user_id = Some (userId session2)\<rparr>,
                               sessions2(the_Str session_id := None)))
                        else if attempts session1 \<ge> maxAttempts session1 then
                          (failure 401 (Some FAIL) MAX_ATTEMPTS,
                           sessions1(the_Str session_id := None))
                        else
                          ((failure 401 (Some FAIL) INVALID_PATTERN)
                             \<lparr>attempts_remaining :=
                                Some (maxAttempts session1 - attempts session1)\<rparr>,
                           sessions1))))"

text \<open>\<^verbatim>\<open>cleanupExpiredSessions\<close>, run by a timer every 30 seconds.\<close>

definition cleanupExpiredSessions :: "int \<Rightarrow> session_table \<Rightarrow> session_table" where
  "cleanupExpiredSessions now sessions =
     (\<lambda>sessionId. case sessions sessionId of
        None \<Rightarrow> None
      | Some session \<Rightarrow> if now > expiresAt session then None else Some session)"

section \<open>Runs of the server\<close>

text \<open>
  One event of the server: a request to either endpoint, with what its handler reads from
  the clock and the random source, or a tick of the cleanup timer.
\<close>

datatype event =
  StartAuth nat "nat \<Rightarrow> nat" string int jsval
  | VerifyAuth int jsval jsval
  | Cleanup int

fun step ::
  "(string \<Rightarrow> string) \<Rightarrow> nat \<Rightarrow> event \<Rightarrow> session_table \<Rightarrow> session_table option" where
  "step sha256 stack (StartAuth fuel rnd uuid now user_id) sessions =
     map_option snd (start_auth fuel rnd uuid now user_id sessions)"
| "step sha256 stack (VerifyAuth now session_id input) sessions =
     Some (snd (verify_auth sha256 stack now session_id input sessions))"
| "step sha256 stack (Cleanup now) sessions = Some (cleanupExpiredSessions now sessions)"

fun run ::
  "(string \<Rightarrow> string) \<Rightarrow> nat \<Rightarrow> event list \<Rightarrow> session_table \<Rightarrow> session_table option" where
  "run sha256 stack [] sessions = Some sessions"
| "run sha256 stack (e # es) sessions =
     (case step sha256 stack e sessions of
        None \<Rightarrow> None
      | Some sessions' \<Rightarrow> run sha256 stack es sessions')"

text \<open>The tables the server can be in: it starts with an empty table.\<close>

definition reachable :: "(string \<Rightarrow> string) \<Rightarrow> nat \<Rightarrow> session_table \<Rightarrow> bool" where
  "reachable sha256 stack sessions \<longleftrightarrow> (\<exists>es. run sha256 stack es Map.empty = Some sessions)"

text \<open>An event mints the session id \<open>sid\<close> when it is a start request whose UUID is \<open>sid\<close>.\<close>

fun mints :: "event \<Rightarrow> string \<Rightarrow> bool" where
  "mints (StartAuth fuel rnd uuid now user_id) sid = (uuid = sid)"
| "mints _ sid = False"

section \<open>Vocabulary of the statements\<close>

text \<open>
  The symbol that the \<open>k\<close>-th draw selects from \<open>availableEmojis\<close>, and the condition on the
  random source under which the filling loop ends within \<open>fuel\<close> iterations: by then the
  draws have selected as many different eligible symbols as the grid lacks at the start.
\<close>

definition drawn :: "(nat \<Rightarrow> nat) \<Rightarrow> symbol list \<Rightarrow> nat \<Rightarrow> symbol" where
  "drawn rnd availableEmojis k = availableEmojis ! (rnd k mod length availableEmojis)"

definition draws_suffice :: "nat \<Rightarrow> (nat \<Rightarrow> nat) \<Rightarrow> symbol list \<Rightarrow> symbol list \<Rightarrow> bool" where
  "draws_suffice fuel rnd pool secretPattern =
     (let availableEmojis = filter (\<lambda>e. e \<notin> set secretPattern) pool
      in 9 - length secretPattern
           \<le> card (set (map (drawn rnd availableEmojis) [0..<fuel]) \<inter> set availableEmojis))"

text \<open>The invariant of the session table.\<close>

definition table_ok :: "session_table \<Rightarrow> bool" where
  "table_ok sessions \<longleftrightarrow>
     (\<forall>sid s. sessions sid = Some s \<longrightarrow>
        \<not> used s \<and> 0 \<le> attempts s \<and> attempts s \<le> 3 \<and> maxAttempts s = 3)"

subsection \<open>Concrete inputs for the worked examples\<close>

text \<open>
  A worked example needs a digest that can be evaluated. \<open>demo_sha256\<close> stands in for
  SHA-256 there: it agrees with it on the one text whose digest the source records (the
  demo secret joined by \<open>|\<close>, see the comment above \<^verbatim>\<open>secretHash\<close>) and maps every other
  text to itself. The general theorems hold for every digest.
\<close>

definition demo_sha256 :: "string \<Rightarrow> string" where
  "demo_sha256 text =
     (if text = ''U+1F34E|U+1F3A7|U+1F525''
      then ''71d9d0d740e5d44281516dc085c9ad814e4ea9570dcdcfd01cbb1971862113c8''
      else text)"

text \<open>Two random sources: the draws 0, 1, 2, ... and the draws 0, 0, 0, ...\<close>

definition counting_draws :: "nat \<Rightarrow> nat" where
  "counting_draws k = k"


definition demo_uuid :: string where
  "demo_uuid = ''123e4567-e89b-42d3-a456-426614174000''"

definition demo_grid :: "symbol list" where
  "demo_grid =
     [''U+1F525'', ''U+1F3AF'', ''U+2B50'', ''U+1F512'', ''U+1F34E'', ''U+1F680'',
      ''U+1F3A7'', ''U+1F48E'', ''U+1F511'']"

definition demo_session :: session where
  "demo_session =
     \<lparr>sessionId = demo_uuid, userId = ''U123'',
      secretHash = Some ''71d9d0d740e5d44281516dc085c9ad814e4ea9570dcdcfd01cbb1971862113c8'',
      grid = demo_grid, createdAt = 1700000000000, expiresAt = 1700000060000,
      used = False, attempts = 0, maxAttempts = 3\<rparr>"

definition demo_table :: session_table where
  "demo_table = [demo_uuid \<mapsto> demo_session]"

definition wrong_pattern :: "symbol list" where
  "wrong_pattern = [''U+1F525'', ''U+1F3A7'', ''U+1F34E'']"

text \<open>A candidate of three elements whose first element makes \<^verbatim>\<open>join\<close> throw.\<close>

definition throwing_pattern :: "jsval list" where
  "throwing_pattern = [Obj [(''toString'', Num ''1'')], Str ''U+1F3A7'', Str ''U+1F525'']"


section \<open>The grid generator: shuffle and filling loop\<close>

lemma shuffle_loop_mset:
  "i < length a \<Longrightarrow> mset (shuffle_loop rnd k i a) = mset a"
proof (induction i arbitrary: k a)
  case 0
  then show ?case by simp
next
  case (Suc i)
  let ?j = "rnd k mod (Suc i + 1)"
  have "?j < Suc i + 1" by (rule mod_less_divisor) simp
  then have j: "?j < length a" using Suc.prems by linarith
  have "mset (a[Suc i := a ! ?j, ?j := a ! Suc i]) = mset a"
    using mset_swap[OF j Suc.prems] .
  moreover have "i < length (a[Suc i := a ! ?j, ?j := a ! Suc i])"
    using Suc.prems by simp
  ultimately show ?case using Suc.IH by (simp add: Let_def)
qed

lemma shuffleArray_mset: "mset (shuffleArray rnd k a) = mset a"
  by (cases a) (simp_all add: shuffleArray_def shuffle_loop_mset)

lemma fill_loop_not_Threw:
  "avail \<noteq> [] \<Longrightarrow> fill_loop fuel rnd k avail g \<noteq> Threw"
  by (induction fuel arbitrary: k g) (simp_all add: randomInt_def Let_def)

lemma fill_loop_Threw:
  "avail = [] \<Longrightarrow> length g < 9 \<Longrightarrow> fill_loop (Suc fuel) rnd k avail g = Threw"
  by (simp add: randomInt_def)

lemma fill_loop_step:
  "length g < 9 \<Longrightarrow> avail \<noteq> [] \<Longrightarrow>
   fill_loop (Suc fuel) rnd k avail g =
     fill_loop fuel rnd (Suc k) avail
       (if drawn rnd avail k \<in> set g then g else g @ [drawn rnd avail k])"
  by (simp add: randomInt_def drawn_def Let_def)

lemma fill_loop_full:
  "\<not> length g < 9 \<Longrightarrow> fill_loop fuel rnd k avail g = Returned (g, k)"
  by (cases fuel) simp_all

text \<open>
  What the loop has done when it returns: it has appended different symbols, each selected
  by one of its draws and none of them in the grid before, and the grid is full.
\<close>

lemma fill_loop_Returned:
  "fill_loop fuel rnd k avail g = Returned (g', k') \<Longrightarrow>
   \<exists>pushed. g' = g @ pushed \<and> distinct pushed \<and> set pushed \<inter> set g = {} \<and>
     set pushed \<subseteq> drawn rnd avail ` {k..<k + fuel} \<and> (pushed \<noteq> [] \<longrightarrow> avail \<noteq> []) \<and>
     9 \<le> length g' \<and> (length g \<le> 9 \<longrightarrow> length g' = 9)"
proof (induction fuel arbitrary: k g)
  case 0
  then have "\<not> length g < 9" "g' = g" by (simp_all split: if_splits)
  then show ?case by simp
next
  case (Suc fuel)
  show ?case
  proof (cases "length g < 9")
    case False
    with Suc.prems have "g' = g" by (simp add: fill_loop_full)
    with False show ?thesis by simp
  next
    case True
    note short = this
    show ?thesis
    proof (cases "avail = []")
      case True
      then have "fill_loop (Suc fuel) rnd k avail g = Threw" using short by (rule fill_loop_Threw)
      with Suc.prems show ?thesis by (metis outcome.distinct(1))
    next
      case False
      let ?e = "drawn rnd avail k"
      let ?g1 = "if ?e \<in> set g then g else g @ [?e]"
      have rec: "fill_loop fuel rnd (Suc k) avail ?g1 = Returned (g', k')"
        using Suc.prems unfolding fill_loop_step[OF short False] .
      from Suc.IH[OF rec] obtain pushed where p:
        "g' = ?g1 @ pushed" "distinct pushed" "set pushed \<inter> set ?g1 = {}"
        "set pushed \<subseteq> drawn rnd avail ` {Suc k..<Suc k + fuel}"
        "9 \<le> length g'" "length ?g1 \<le> 9 \<longrightarrow> length g' = 9"
        by blast
      have "{Suc k..<Suc k + fuel} \<subseteq> {k..<k + Suc fuel}" by auto
      then have sub: "drawn rnd avail ` {Suc k..<Suc k + fuel} \<subseteq> drawn rnd avail ` {k..<k + Suc fuel}"
        by (rule image_mono)
      have "k \<in> {k..<k + Suc fuel}" by simp
      then have here: "?e \<in> drawn rnd avail ` {k..<k + Suc fuel}" by (rule imageI)
      show ?thesis
      proof (cases "?e \<in> set g")
        case True
        with p have "g' = g @ pushed" "set pushed \<inter> set g = {}" "length g \<le> 9 \<longrightarrow> length g' = 9"
          by simp_all
        moreover have "set pushed \<subseteq> drawn rnd avail ` {k..<k + Suc fuel}"
          using p(4) sub by blast
        ultimately show ?thesis using p(2,5) \<open>avail \<noteq> []\<close>
          by (intro exI[of _ pushed]) simp
      next
        case False
        with p have a: "g' = g @ (?e # pushed)" "?e \<notin> set pushed" "set pushed \<inter> set g = {}"
          "length g' = 9"
          using short by auto
        have "distinct (?e # pushed)" using a(2) p(2) by simp
        moreover have "set (?e # pushed) \<inter> set g = {}" using a(3) False by simp
        moreover have "set (?e # pushed) \<subseteq> drawn rnd avail ` {k..<k + Suc fuel}"
          using here p(4) sub by auto
        ultimately show ?thesis using a(1,4) \<open>avail \<noteq> []\<close>
          by (intro exI[of _ "?e # pushed"]) simp
      qed
    qed
  qed
qed

text \<open>The loop ends once its draws have selected enough different symbols.\<close>

lemma fill_loop_returns:
  "avail \<noteq> [] \<Longrightarrow> 9 - length g \<le> card (drawn rnd avail ` {k..<k + fuel} - set g) \<Longrightarrow>
   \<exists>g' k'. fill_loop fuel rnd k avail g = Returned (g', k')"
proof (induction fuel arbitrary: k g)
  case 0
  then show ?case by simp
next
  case (Suc fuel)
  show ?case
  proof (cases "length g < 9")
    case False
    show ?thesis unfolding fill_loop_full[OF False] by blast
  next
    case True
    let ?e = "drawn rnd avail k"
    let ?g1 = "if ?e \<in> set g then g else g @ [?e]"
    let ?D = "drawn rnd avail ` {Suc k..<Suc k + fuel}"
    have split: "drawn rnd avail ` {k..<k + Suc fuel} = insert ?e ?D"
    proof -
      have "{k..<k + Suc fuel} = insert k {Suc k..<Suc k + fuel}" by auto
      then show ?thesis by simp
    qed
    have "9 - length ?g1 \<le> card (?D - set ?g1)"
    proof (cases "?e \<in> set g")
      case True
      then have "insert ?e ?D - set g = ?D - set g" by auto
      with Suc.prems(2) split True show ?thesis by simp
    next
      case False
      have "insert ?e ?D - set g = insert ?e (?D - set (g @ [?e]))" using False by auto
      then have "card (insert ?e ?D - set g) \<le> Suc (card (?D - set (g @ [?e])))"
        by (simp add: card_insert_if)
      with Suc.prems(2) split False show ?thesis by simp
    qed
    from Suc.IH[OF Suc.prems(1) this] show ?thesis
      unfolding fill_loop_step[OF True Suc.prems(1)] .
  qed
qed

lemma drawn_in_avail: "avail \<noteq> [] \<Longrightarrow> drawn rnd avail k \<in> set avail"
  by (simp add: drawn_def)

lemma draws_suffice_iff:
  "draws_suffice fuel rnd pool secretPattern \<longleftrightarrow>
     9 - length secretPattern
       \<le> card (drawn rnd (filter (\<lambda>e. e \<notin> set secretPattern) pool) ` {0..<fuel}
               \<inter> set (filter (\<lambda>e. e \<notin> set secretPattern) pool))"
  by (simp add: draws_suffice_def Let_def)

lemma fill_loop_returns_iff:
  assumes "set avail \<inter> set g = {}"
  shows "(\<exists>g' k'. fill_loop fuel rnd 0 avail g = Returned (g', k')) \<longleftrightarrow>
         9 - length g \<le> card (drawn rnd avail ` {0..<fuel} \<inter> set avail)"
proof
  assume "\<exists>g' k'. fill_loop fuel rnd 0 avail g = Returned (g', k')"
  then obtain g' k' where "fill_loop fuel rnd 0 avail g = Returned (g', k')" by blast
  from fill_loop_Returned[OF this] obtain pushed where p:
    "g' = g @ pushed" "distinct pushed" "set pushed \<subseteq> drawn rnd avail ` {0..<0 + fuel}"
    "pushed \<noteq> [] \<longrightarrow> avail \<noteq> []" "9 \<le> length g'"
    by blast
  have "set pushed \<subseteq> drawn rnd avail ` {0..<fuel} \<inter> set avail"
  proof (cases "pushed = []")
    case True
    then show ?thesis by simp
  next
    case False
    with p(4) have "avail \<noteq> []" by simp
    then have "drawn rnd avail ` {0..<fuel} \<subseteq> set avail" using drawn_in_avail by blast
    with p(3) show ?thesis by auto
  qed
  then have "card (set pushed) \<le> card (drawn rnd avail ` {0..<fuel} \<inter> set avail)"
    by (intro card_mono) simp_all
  moreover have "card (set pushed) = length pushed" using p(2) by (rule distinct_card)
  moreover have "9 - length g \<le> length pushed" using p(1,5) by simp
  ultimately show "9 - length g \<le> card (drawn rnd avail ` {0..<fuel} \<inter> set avail)" by linarith
next
  assume a: "9 - length g \<le> card (drawn rnd avail ` {0..<fuel} \<inter> set avail)"
  show "\<exists>g' k'. fill_loop fuel rnd 0 avail g = Returned (g', k')"
  proof (cases "avail = []")
    case True
    with a have "\<not> length g < 9" by simp
    then show ?thesis using fill_loop_full by blast
  next
    case False
    then have "drawn rnd avail ` {0..<fuel} \<subseteq> set avail" using drawn_in_avail by blast
    then have "drawn rnd avail ` {0..<fuel} \<inter> set avail = drawn rnd avail ` {0..<0 + fuel} - set g"
      using assms by auto
    with a have "9 - length g \<le> card (drawn rnd avail ` {0..<0 + fuel} - set g)" by simp
    from fill_loop_returns[OF False this] show ?thesis .
  qed
qed

lemma generate_returns_iff:
  "(\<exists>g. generateShuffledGrid fuel rnd pool secretPattern = Returned g) \<longleftrightarrow>
   draws_suffice fuel rnd pool secretPattern"
proof -
  let ?avail = "filter (\<lambda>e. e \<notin> set secretPattern) pool"
  have disj: "set ?avail \<inter> set secretPattern = {}" by auto
  have "(\<exists>g. generateShuffledGrid fuel rnd pool secretPattern = Returned g) \<longleftrightarrow>
        (\<exists>g' k'. fill_loop fuel rnd 0 ?avail secretPattern = Returned (g', k'))"
    by (auto simp: generateShuffledGrid_def Let_def split: outcome.splits)
  then show ?thesis
    unfolding fill_loop_returns_iff[OF disj] draws_suffice_iff .
qed

lemma generate_Returned:
  assumes "generateShuffledGrid fuel rnd pool secretPattern = Returned g"
  shows "\<exists>pushed. mset g = mset secretPattern + mset pushed \<and> distinct pushed \<and>
     set pushed \<subseteq> set pool - set secretPattern \<and> 9 \<le> length g \<and>
     (length secretPattern \<le> 9 \<longrightarrow> length g = 9)"
proof -
  let ?avail = "filter (\<lambda>e. e \<notin> set secretPattern) pool"
  from assms obtain filled k where f: "fill_loop fuel rnd 0 ?avail secretPattern = Returned (filled, k)"
    and g: "g = shuffleArray rnd k filled"
    by (auto simp: generateShuffledGrid_def Let_def split: outcome.splits)
  from fill_loop_Returned[OF f] obtain pushed where p:
    "filled = secretPattern @ pushed" "distinct pushed" "set pushed \<subseteq> drawn rnd ?avail ` {0..<0 + fuel}"
    "pushed \<noteq> [] \<longrightarrow> ?avail \<noteq> []" "9 \<le> length filled"
    "length secretPattern \<le> 9 \<longrightarrow> length filled = 9"
    by blast
  have m: "mset g = mset filled" unfolding g by (rule shuffleArray_mset)
  then have len: "length g = length filled" by (rule mset_eq_length)
  have "set pushed \<subseteq> set ?avail"
  proof (cases "pushed = []")
    case True
    then show ?thesis by simp
  next
    case False
    with p(4) have "?avail \<noteq> []" by simp
    then have "drawn rnd ?avail ` {0..<0 + fuel} \<subseteq> set ?avail" using drawn_in_avail by blast
    with p(3) show ?thesis by blast
  qed
  then have "set pushed \<subseteq> set pool - set secretPattern" by auto
  with m len p(1,2,5,6) show ?thesis
    by (intro exI[of _ pushed]) simp
qed

lemma generate_distinct:
  assumes "generateShuffledGrid fuel rnd pool secretPattern = Returned g"
    and "distinct secretPattern"
  shows "distinct g \<and> set secretPattern \<subseteq> set g"
proof -
  from generate_Returned[OF assms(1)] obtain pushed where p:
    "mset g = mset secretPattern + mset pushed" "distinct pushed"
    "set pushed \<subseteq> set pool - set secretPattern"
    by blast
  have "mset g = mset (secretPattern @ pushed)" using p(1) by simp
  moreover have "distinct (secretPattern @ pushed)" using assms(2) p(2,3) by auto
  ultimately have "distinct g" by (metis mset_eq_imp_distinct_iff)
  moreover have "set g = set (secretPattern @ pushed)"
    using \<open>mset g = mset (secretPattern @ pushed)\<close> by (rule mset_eq_setD)
  ultimately show ?thesis by simp
qed



lemma generate_not_Threw:
  assumes "\<not> set pool \<subseteq> set secretPattern"
  shows "generateShuffledGrid fuel rnd pool secretPattern \<noteq> Threw"
proof -
  from assms have "filter (\<lambda>e. e \<notin> set secretPattern) pool \<noteq> []"
    by (auto simp: filter_empty_conv)
  then have "fill_loop fuel rnd 0 (filter (\<lambda>e. e \<notin> set secretPattern) pool) secretPattern \<noteq> Threw"
    by (rule fill_loop_not_Threw)
  then show ?thesis
    by (auto simp: generateShuffledGrid_def Let_def split: outcome.splits)
qed

lemma generate_Running:
  assumes "\<not> set pool \<subseteq> set secretPattern"
    and "\<not> draws_suffice fuel rnd pool secretPattern"
  shows "generateShuffledGrid fuel rnd pool secretPattern = Running"
proof (cases "generateShuffledGrid fuel rnd pool secretPattern")
  case (Returned g)
  with assms(2) show ?thesis using generate_returns_iff by blast
next
  case Threw
  with generate_not_Threw[OF assms(1)] show ?thesis by blast
next
  case Running
  then show ?thesis .
qed


section \<open>The invariant of the session table\<close>

lemma table_ok_empty: "table_ok Map.empty"
  by (simp add: table_ok_def)

lemma table_ok_delete: "table_ok sessions \<Longrightarrow> table_ok (sessions(sid := None))"
  by (simp add: table_ok_def)

lemma table_ok_update:
  "table_ok sessions \<Longrightarrow> \<not> used s \<Longrightarrow> 0 \<le> attempts s \<Longrightarrow> attempts s \<le> 3 \<Longrightarrow>
   maxAttempts s = 3 \<Longrightarrow> table_ok (sessions(sid \<mapsto> s))"
  by (simp add: table_ok_def)

lemma table_ok_start_auth:
  assumes "table_ok sessions"
    and "start_auth fuel rnd uuid now user_id sessions = Some (resp, sessions')"
  shows "table_ok sessions'"
proof -
  from assms(2) have "sessions' = sessions \<or>
      (\<exists>s. sessions' = sessions(uuid \<mapsto> s) \<and> \<not> used s \<and> attempts s = 0 \<and> maxAttempts s = 3)"
    by (auto simp: start_auth_def Let_def split: if_splits option.splits outcome.splits)
  then show ?thesis using assms(1) by (auto intro: table_ok_update)
qed

lemma table_ok_verify_auth:
  assumes "table_ok sessions"
  shows "table_ok (snd (verify_auth sha256 stack now session_id input sessions))"
proof (cases "sessions (the_Str session_id)")
  case None
  then show ?thesis using assms by (simp add: verify_auth_def)
next
  case (Some s)
  with assms have s: "\<not> used s" "0 \<le> attempts s" "attempts s \<le> 3" "maxAttempts s = 3"
    by (auto simp: table_ok_def)
  show ?thesis
  proof (cases "attempts s < 3")
    case True
    have "table_ok (sessions(the_Str session_id \<mapsto> s\<lparr>attempts := attempts s + 1\<rparr>))"
      using assms s True by (intro table_ok_update) simp_all
    then show ?thesis using Some assms s True
      by (simp add: verify_auth_def Let_def table_ok_delete split: option.splits)
  next
    case False
    then show ?thesis using Some assms s
      by (simp add: verify_auth_def Let_def table_ok_delete)
  qed
qed

lemma table_ok_cleanup:
  "table_ok sessions \<Longrightarrow> table_ok (cleanupExpiredSessions now sessions)"
  by (auto simp: table_ok_def cleanupExpiredSessions_def split: option.splits if_splits)

lemma table_ok_step:
  "table_ok sessions \<Longrightarrow> step sha256 stack e sessions = Some sessions' \<Longrightarrow> table_ok sessions'"
proof (cases e)
  case (StartAuth fuel rnd uuid now user_id)
  assume "table_ok sessions" "step sha256 stack e sessions = Some sessions'"
  with StartAuth show ?thesis
    by (auto dest: table_ok_start_auth)
next
  case (VerifyAuth now session_id input)
  assume "table_ok sessions" "step sha256 stack e sessions = Some sessions'"
  with VerifyAuth show ?thesis
    using table_ok_verify_auth by auto
next
  case (Cleanup now)
  assume "table_ok sessions" "step sha256 stack e sessions = Some sessions'"
  with Cleanup show ?thesis
    using table_ok_cleanup by auto
qed

lemma table_ok_run:
  "table_ok sessions \<Longrightarrow> run sha256 stack es sessions = Some sessions' \<Longrightarrow> table_ok sessions'"
proof (induction es arbitrary: sessions)
  case Nil
  then show ?case by simp
next
  case (Cons e es)
  from Cons.prems(2) obtain mid where mid: "step sha256 stack e sessions = Some mid"
    "run sha256 stack es mid = Some sessions'"
    by (auto split: option.splits)
  from table_ok_step[OF Cons.prems(1) mid(1)] mid(2) show ?case by (rule Cons.IH)
qed

lemma reachable_table_ok: "reachable sha256 stack sessions \<Longrightarrow> table_ok sessions"
  unfolding reachable_def using table_ok_run[OF table_ok_empty] by blast

section \<open>Facts about the handlers\<close>

lemma demo_generate:
  "generateShuffledGrid 6 counting_draws EMOJI_POOL demo_secretPattern = Returned demo_grid"
  by code_simp

lemma demo_start_auth:
  "start_auth 6 counting_draws demo_uuid 1700000000000 (Str ''U123'') Map.empty =
     Some (Start_OK demo_uuid demo_grid 60, demo_table)"
  by (simp add: start_auth_def demo_generate USER_DATABASE_get_def USER_DATABASE_def
      demo_table_def demo_session_def SESSION_TIMEOUT_MS_def)

lemma demo_reachable: "reachable sha256 stack demo_table"
  unfolding reachable_def
  by (rule exI[of _ "[StartAuth 6 counting_draws demo_uuid 1700000000000 (Str ''U123'')]"])
     (simp add: demo_start_auth)

lemma demo_uuid_nonempty: "demo_uuid \<noteq> []"
  by (simp add: demo_uuid_def)

lemma start_auth_OK:
  assumes "start_auth fuel rnd uuid now user_id sessions = Some (Start_OK sid g ttl, sessions')"
  shows "sid = uuid \<and> ttl = 60 \<and>
         (\<exists>s. sessions' = sessions(uuid \<mapsto> s) \<and> sessionId s = uuid \<and> grid s = g \<and>
              createdAt s = now \<and> expiresAt s = now + 60000 \<and> \<not> used s \<and> attempts s = 0 \<and>
              maxAttempts s = 3)"
  using assms
  by (auto simp: start_auth_def Let_def SESSION_TIMEOUT_MS_def
      split: if_splits option.splits outcome.splits)

lemma verify_auth_mismatch:
  assumes "sessions sid = Some s" "sid \<noteq> []" "length c = 3" "\<not> used s" "now \<le> expiresAt s"
    "attempts s < maxAttempts s" "hashVisualPattern stack sha256 c = Some h"
    "Some h \<noteq> secretHash s"
  shows "verify_auth sha256 stack now (Str sid) (Arr c) sessions =
     (if maxAttempts s \<le> attempts s + 1
      then (failure 401 (Some FAIL) MAX_ATTEMPTS, sessions(sid := None))
      else ((failure 401 (Some FAIL) INVALID_PATTERN)
              \<lparr>attempts_remaining := Some (maxAttempts s - (attempts s + 1))\<rparr>,
            sessions(sid \<mapsto> s\<lparr>attempts := attempts s + 1\<rparr>)))"
  using assms by (simp add: verify_auth_def Let_def)

text \<open>
  The \<^verbatim>\<open>catch\<close> path: the request is answered with status 500 and the session stays in the
  table with the attempt counted.
\<close>

lemma verify_auth_throws:
  assumes "sessions sid = Some s" "sid \<noteq> []" "length c = 3" "\<not> used s" "now \<le> expiresAt s"
    "attempts s < maxAttempts s" "hashVisualPattern stack sha256 c = None"
  shows "verify_auth sha256 stack now (Str sid) (Arr c) sessions =
     (failure 500 None INTERNAL_ERROR, sessions(sid \<mapsto> s\<lparr>attempts := attempts s + 1\<rparr>))"
  using assms by (simp add: verify_auth_def Let_def)

lemma hash_demo_secret:
  "hashVisualPattern 100 demo_sha256 (map Str demo_secretPattern) =
     Some ''71d9d0d740e5d44281516dc085c9ad814e4ea9570dcdcfd01cbb1971862113c8''"
  by (simp add: hashVisualPattern_def js_join_def demo_secretPattern_def demo_sha256_def)

lemma hash_wrong_pattern:
  "hashVisualPattern 100 demo_sha256 (map Str wrong_pattern) = Some ''U+1F525|U+1F3A7|U+1F34E''"
  by (simp add: hashVisualPattern_def js_join_def wrong_pattern_def demo_sha256_def)

lemma hash_throwing_pattern: "hashVisualPattern 100 sha256 throwing_pattern = None"
  by (simp add: hashVisualPattern_def js_join_def throwing_pattern_def)

lemma verify_auth_absent:
  "sessions sid = None \<Longrightarrow> sid \<noteq> [] \<Longrightarrow> length c = 3 \<Longrightarrow>
   verify_auth sha256 stack now (Str sid) (Arr c) sessions =
     (failure 401 (Some FAIL) INVALID_SESSION, sessions)"
  by (simp add: verify_auth_def)

lemma verify_auth_SESSION_USED:
  "error (fst (verify_auth sha256 stack now session_id input sessions)) = Some SESSION_USED \<Longrightarrow>
   \<exists>s. sessions (the_Str session_id) = Some s \<and> used s"
  by (auto simp: verify_auth_def failure_def Let_def split: option.splits if_splits)

lemma demo_draws_suffice: "draws_suffice 6 counting_draws EMOJI_POOL demo_secretPattern"
  using demo_generate generate_returns_iff by blast


lemma demo_user: "USER_DATABASE ''U123'' =
  Some \<lparr>u_userId = ''U123'',
        u_secretHash = ''71d9d0d740e5d44281516dc085c9ad814e4ea9570dcdcfd01cbb1971862113c8''\<rparr>"
  by (simp add: USER_DATABASE_def)

lemma start_auth_registered:
  assumes "USER_DATABASE user = Some u"
    and "generateShuffledGrid fuel rnd EMOJI_POOL demo_secretPattern = Returned g"
  shows "start_auth fuel rnd uuid now (Str user) sessions =
     Some (Start_OK uuid g 60,
           sessions(uuid \<mapsto>
             \<lparr>sessionId = uuid, userId = user, secretHash = Some (u_secretHash u), grid = g,
              createdAt = now, expiresAt = now + 60000, used = False, attempts = 0,
              maxAttempts = 3\<rparr>))"
proof -
  from assms(1) have "user = ''U123''"
    by (simp add: USER_DATABASE_def split: if_splits)
  then have "\<not> not_a_nonempty_string (Str user)" by simp
  moreover have "USER_DATABASE_get user = Some (Own u)"
    using assms(1) by (simp add: USER_DATABASE_get_def)
  ultimately show ?thesis
    using assms(2) by (simp add: start_auth_def SESSION_TIMEOUT_MS_def)
qed

lemma count_list_distinct: "distinct xs \<Longrightarrow> x \<in> set xs \<Longrightarrow> count_list xs x = 1"
  by (induction xs) auto

lemma demo_table_lookup: "demo_table demo_uuid = Some demo_session"
  by (simp add: demo_table_def)

lemma verify_auth_keeps_absent:
  "sessions k = None \<Longrightarrow> snd (verify_auth sha256 stack now session_id input sessions) k = None"
  by (auto simp: verify_auth_def Let_def split: option.splits)

lemma start_auth_keeps_absent:
  "sessions k = None \<Longrightarrow> start_auth fuel rnd uuid now user_id sessions = Some (resp, sessions') \<Longrightarrow>
   uuid \<noteq> k \<Longrightarrow> sessions' k = None"
  by (auto simp: start_auth_def Let_def split: if_splits option.splits outcome.splits)

lemma cleanup_keeps_absent:
  "sessions k = None \<Longrightarrow> cleanupExpiredSessions now sessions k = None"
  by (simp add: cleanupExpiredSessions_def)

lemma step_keeps_absent:
  "sessions k = None \<Longrightarrow> step sha256 stack e sessions = Some sessions' \<Longrightarrow> \<not> mints e k \<Longrightarrow>
   sessions' k = None"
  by (cases e)
     (auto simp: verify_auth_keeps_absent cleanup_keeps_absent dest: start_auth_keeps_absent)

lemma run_keeps_absent:
  "sessions k = None \<Longrightarrow> run sha256 stack es sessions = Some sessions' \<Longrightarrow>
   \<forall>e \<in> set es. \<not> mints e k \<Longrightarrow> sessions' k = None"
proof (induction es arbitrary: sessions)
  case Nil
  then show ?case by simp
next
  case (Cons e es)
  from Cons.prems(2) obtain mid where mid: "step sha256 stack e sessions = Some mid"
    "run sha256 stack es mid = Some sessions'"
    by (auto split: option.splits)
  from Cons.prems(3) have m: "\<not> mints e k" "\<forall>e \<in> set es. \<not> mints e k" by simp_all
  from step_keeps_absent[OF Cons.prems(1) mid(1) m(1)] mid(2) m(2) show ?case
    by (rule Cons.IH)
qed

lemma verify_auth_PASS:
  "result (fst (verify_auth sha256 stack now session_id input sessions)) = Some PASS \<Longrightarrow>
   \<not> not_a_nonempty_string session_id \<and>
   snd (verify_auth sha256 stack now session_id input sessions) (the_Str session_id) = None"
  by (auto simp: verify_auth_def failure_def Let_def split: option.splits if_splits)

section \<open>Malformed requests\<close>

text \<open>
  C8. A verify request whose \<open>input\<close> is not an array of exactly three elements is answered
  with status 400 and the error \<open>INVALID_REQUEST\<close>, whatever the session id, the clock and
  the table are, and the session table is left as it was: no session is looked up, no
  attempt is counted.
\<close>

theorem verify_auth_rejects_wrong_length:
  "\<forall>xs. input = Arr xs \<longrightarrow> length xs \<noteq> 3 \<Longrightarrow>
   verify_auth sha256 stack now session_id input sessions =
     (\<lparr>status = 400, result = None, error = Some INVALID_REQUEST,
       attempts_remaining = None, pass_user_id = None\<rparr>, sessions)"
  by (cases input) (simp_all add: verify_auth_def failure_def)

theorem verify_auth_rejects_wrong_length_witness:
  "verify_auth demo_sha256 100 1700000001000 (Str demo_uuid) (Arr [Str ''U+1F34E'', Str ''U+1F3A7'']) demo_table =
     (\<lparr>status = 400, result = None, error = Some INVALID_REQUEST,
       attempts_remaining = None, pass_user_id = None\<rparr>, demo_table)"
  using verify_auth_rejects_wrong_length
    [of "Arr [Str ''U+1F34E'', Str ''U+1F3A7'']" demo_sha256 100 1700000001000 "Str demo_uuid"
      demo_table]
  by simp

section \<open>Sessions in the table are unused\<close>

text \<open>
  C10. In every table the server can reach, every session has \<open>used = False\<close> (a PASS
  removes the session in the step that marks it), and so no verify request made on a
  reachable table is answered with \<open>SESSION_USED\<close>.
\<close>

theorem sessions_never_used:
  "reachable sha256 stack sessions \<Longrightarrow>
   (\<forall>sid s. sessions sid = Some s \<longrightarrow> \<not> used s) \<and>
   (\<forall>now session_id input.
      error (fst (verify_auth sha256 stack now session_id input sessions)) \<noteq> Some SESSION_USED)"
proof -
  assume "reachable sha256 stack sessions"
  then have ok: "table_ok sessions" by (rule reachable_table_ok)
  then have unused: "\<forall>sid s. sessions sid = Some s \<longrightarrow> \<not> used s"
    by (simp add: table_ok_def)
  moreover have "error (fst (verify_auth sha256 stack now session_id input sessions)) \<noteq> Some SESSION_USED"
    for now session_id input
    using unused verify_auth_SESSION_USED by blast
  ultimately show ?thesis by blast
qed

theorem sessions_never_used_witness:
  "\<not> used demo_session \<and>
   error (fst (verify_auth demo_sha256 100 1700000001000 (Str demo_uuid) (Arr (map Str demo_secretPattern))
     demo_table)) \<noteq> Some SESSION_USED"
proof -
  have "demo_table demo_uuid = Some demo_session" by (simp add: demo_table_def)
  with sessions_never_used[OF demo_reachable, of demo_sha256] show ?thesis by blast
qed

section \<open>The attempt cap\<close>

text \<open>Three requests that throw leave the demo session in the table with three attempts.\<close>

lemma capped_table_reachable:
  "reachable demo_sha256 100 [demo_uuid \<mapsto> demo_session\<lparr>attempts := 3\<rparr>]"
proof -
  have e: "1700000001000 \<le> expiresAt demo_session" by (simp add: demo_session_def)
  have l: "length throwing_pattern = 3" by (simp add: throwing_pattern_def)
  have u: "\<not> used demo_session" by (simp add: demo_session_def)
  have 1: "verify_auth demo_sha256 100 1700000001000 (Str demo_uuid) (Arr throwing_pattern) demo_table
      = (failure 500 None INTERNAL_ERROR, [demo_uuid \<mapsto> demo_session\<lparr>attempts := 1\<rparr>])"
    using verify_auth_throws[of demo_table demo_uuid demo_session throwing_pattern 1700000001000
        100 demo_sha256]
      demo_table_lookup demo_uuid_nonempty l hash_throwing_pattern
    by (simp add: demo_session_def demo_table_def)
  have 2: "verify_auth demo_sha256 100 1700000001000 (Str demo_uuid) (Arr throwing_pattern)
        [demo_uuid \<mapsto> demo_session\<lparr>attempts := 1\<rparr>]
      = (failure 500 None INTERNAL_ERROR, [demo_uuid \<mapsto> demo_session\<lparr>attempts := 2\<rparr>])"
    using verify_auth_throws[of "[demo_uuid \<mapsto> demo_session\<lparr>attempts := 1\<rparr>]" demo_uuid
        "demo_session\<lparr>attempts := 1\<rparr>" throwing_pattern 1700000001000 100 demo_sha256]
      demo_uuid_nonempty l hash_throwing_pattern
    by (simp add: demo_session_def)
  have 3: "verify_auth demo_sha256 100 1700000001000 (Str demo_uuid) (Arr throwing_pattern)
        [demo_uuid \<mapsto> demo_session\<lparr>attempts := 2\<rparr>]
      = (failure 500 None INTERNAL_ERROR, [demo_uuid \<mapsto> demo_session\<lparr>attempts := 3\<rparr>])"
    using verify_auth_throws[of "[demo_uuid \<mapsto> demo_session\<lparr>attempts := 2\<rparr>]" demo_uuid
        "demo_session\<lparr>attempts := 2\<rparr>" throwing_pattern 1700000001000 100 demo_sha256]
      demo_uuid_nonempty l hash_throwing_pattern
    by (simp add: demo_session_def)
  show ?thesis
    unfolding reachable_def
    by (rule exI[of _ "[StartAuth 6 counting_draws demo_uuid 1700000000000 (Str ''U123''),
          VerifyAuth 1700000001000 (Str demo_uuid) (Arr throwing_pattern),
          VerifyAuth 1700000001000 (Str demo_uuid) (Arr throwing_pattern),
          VerifyAuth 1700000001000 (Str demo_uuid) (Arr throwing_pattern)]"])
       (simp add: demo_start_auth 1 2 3)
qed

text \<open>
  C6. In every table the server can reach, every session has \<open>attempts \<le> maxAttempts\<close> and
  \<open>maxAttempts = 3\<close>. In any table, a verify request that looks up a session whose attempts
  are at the cap removes the session and is answered \<open>FAIL\<close>, whatever the candidate is, a
  candidate that cannot be hashed included. A request whose own increment reaches the cap
  removes the session as well when its candidate is hashed, on a match as on a mismatch.
  (When hashing throws, the request ends in the \<^verbatim>\<open>catch\<close> before it looks at the counter
  again, see \<open>verify_auth_throws\<close>: the session stays, with its attempts at the cap at
  most, and the next request that looks it up removes it.)
\<close>

theorem attempts_capped:
  "(reachable sha256 stack sessions \<longrightarrow>
      (\<forall>sid s. sessions sid = Some s \<longrightarrow> attempts s \<le> maxAttempts s \<and> maxAttempts s = 3)) \<and>
   (sessions sid = Some s \<and> sid \<noteq> [] \<and> length candidate = 3 \<and> maxAttempts s \<le> attempts s \<longrightarrow>
      snd (verify_auth sha256 stack now (Str sid) (Arr candidate) sessions) sid = None \<and>
      result (fst (verify_auth sha256 stack now (Str sid) (Arr candidate) sessions)) = Some FAIL) \<and>
   (sessions sid = Some s \<and> sid \<noteq> [] \<and> length candidate = 3 \<and> maxAttempts s \<le> attempts s + 1 \<and>
    hashVisualPattern stack sha256 candidate \<noteq> None \<longrightarrow>
      snd (verify_auth sha256 stack now (Str sid) (Arr candidate) sessions) sid = None)"
proof (intro conjI impI)
  assume "reachable sha256 stack sessions"
  then have "table_ok sessions" by (rule reachable_table_ok)
  then show "\<forall>sid s. sessions sid = Some s \<longrightarrow> attempts s \<le> maxAttempts s \<and> maxAttempts s = 3"
    unfolding table_ok_def by force
next
  assume "sessions sid = Some s \<and> sid \<noteq> [] \<and> length candidate = 3 \<and> maxAttempts s \<le> attempts s"
  then show "snd (verify_auth sha256 stack now (Str sid) (Arr candidate) sessions) sid = None"
    by (simp add: verify_auth_def Let_def)
next
  assume "sessions sid = Some s \<and> sid \<noteq> [] \<and> length candidate = 3 \<and> maxAttempts s \<le> attempts s"
  then show "result (fst (verify_auth sha256 stack now (Str sid) (Arr candidate) sessions)) = Some FAIL"
    by (simp add: verify_auth_def Let_def failure_def)
next
  assume "sessions sid = Some s \<and> sid \<noteq> [] \<and> length candidate = 3 \<and> maxAttempts s \<le> attempts s + 1 \<and>
    hashVisualPattern stack sha256 candidate \<noteq> None"
  then show "snd (verify_auth sha256 stack now (Str sid) (Arr candidate) sessions) sid = None"
    by (auto simp: verify_auth_def Let_def)
qed

theorem attempts_capped_witness:
  "attempts (demo_session\<lparr>attempts := 3\<rparr>) \<le> maxAttempts (demo_session\<lparr>attempts := 3\<rparr>) \<and>
   snd (verify_auth demo_sha256 100 1700000001000 (Str demo_uuid) (Arr throwing_pattern)
     [demo_uuid \<mapsto> demo_session\<lparr>attempts := 3\<rparr>]) demo_uuid = None \<and>
   result (fst (verify_auth demo_sha256 100 1700000001000 (Str demo_uuid) (Arr throwing_pattern)
     [demo_uuid \<mapsto> demo_session\<lparr>attempts := 3\<rparr>])) = Some FAIL \<and>
   snd (verify_auth demo_sha256 100 1700000001000 (Str demo_uuid) (Arr (map Str wrong_pattern))
     [demo_uuid \<mapsto> demo_session\<lparr>attempts := 2\<rparr>]) demo_uuid = None"
proof -
  let ?t3 = "[demo_uuid \<mapsto> demo_session\<lparr>attempts := 3\<rparr>]"
  let ?t2 = "[demo_uuid \<mapsto> demo_session\<lparr>attempts := 2\<rparr>]"
  have a: "?t3 demo_uuid = Some (demo_session\<lparr>attempts := 3\<rparr>)" by simp
  have b: "?t3 demo_uuid = Some (demo_session\<lparr>attempts := 3\<rparr>) \<and> demo_uuid \<noteq> [] \<and>
      length throwing_pattern = 3 \<and>
      maxAttempts (demo_session\<lparr>attempts := 3\<rparr>) \<le> attempts (demo_session\<lparr>attempts := 3\<rparr>)"
    by (simp add: demo_session_def demo_uuid_def throwing_pattern_def)
  have c: "?t2 demo_uuid = Some (demo_session\<lparr>attempts := 2\<rparr>) \<and> demo_uuid \<noteq> [] \<and>
      length (map Str wrong_pattern) = 3 \<and>
      maxAttempts (demo_session\<lparr>attempts := 2\<rparr>) \<le> attempts (demo_session\<lparr>attempts := 2\<rparr>) + 1 \<and>
      hashVisualPattern 100 demo_sha256 (map Str wrong_pattern) \<noteq> None"
    using hash_wrong_pattern by (simp add: demo_session_def demo_uuid_def wrong_pattern_def)
  note r = attempts_capped[of demo_sha256 100 ?t3 demo_uuid "demo_session\<lparr>attempts := 3\<rparr>"
      throwing_pattern 1700000001000]
  note q = attempts_capped[of demo_sha256 100 ?t2 demo_uuid "demo_session\<lparr>attempts := 2\<rparr>"
      "map Str wrong_pattern" 1700000001000]
  from r capped_table_reachable a
  have 1: "attempts (demo_session\<lparr>attempts := 3\<rparr>) \<le> maxAttempts (demo_session\<lparr>attempts := 3\<rparr>)"
    by blast
  from r b have 2: "snd (verify_auth demo_sha256 100 1700000001000 (Str demo_uuid)
      (Arr throwing_pattern) ?t3) demo_uuid = None \<and>
      result (fst (verify_auth demo_sha256 100 1700000001000 (Str demo_uuid)
        (Arr throwing_pattern) ?t3)) = Some FAIL"
    by blast
  from q c have 3: "snd (verify_auth demo_sha256 100 1700000001000 (Str demo_uuid)
      (Arr (map Str wrong_pattern)) ?t2) demo_uuid = None"
    by blast
  from 1 2 3 show ?thesis by blast
qed

section \<open>The attempt budget\<close>

text \<open>
  C2. On a session that \<open>start_auth\<close> has just created and that has not expired at the time
  of the requests, three verify requests with wrong three-element candidates are answered
  \<open>FAIL\<close> with \<open>attempts_remaining = 2\<close>, \<open>FAIL\<close> with \<open>attempts_remaining = 1\<close>, and
  \<open>MAX_ATTEMPTS\<close>, the third removing the session; a fourth request with the same session
  id is answered \<open>INVALID_SESSION\<close>.
\<close>

theorem three_wrong_attempts:
  assumes "start_auth fuel rnd sid now0 user_id sessions0 = Some (Start_OK sid g ttl, sessions)"
    and "sid \<noteq> []" and "sessions sid = Some s"
    and "now1 \<le> expiresAt s" and "now2 \<le> expiresAt s" and "now3 \<le> expiresAt s"
    and "length c1 = 3" and "hashVisualPattern stack sha256 c1 = Some h1"
    and "Some h1 \<noteq> secretHash s"
    and "length c2 = 3" and "hashVisualPattern stack sha256 c2 = Some h2"
    and "Some h2 \<noteq> secretHash s"
    and "length c3 = 3" and "hashVisualPattern stack sha256 c3 = Some h3"
    and "Some h3 \<noteq> secretHash s"
    and "length c4 = 3"
  shows "let (r1, t1) = verify_auth sha256 stack now1 (Str sid) (Arr c1) sessions;
             (r2, t2) = verify_auth sha256 stack now2 (Str sid) (Arr c2) t1;
             (r3, t3) = verify_auth sha256 stack now3 (Str sid) (Arr c3) t2;
             (r4, t4) = verify_auth sha256 stack now4 (Str sid) (Arr c4) t3
         in result r1 = Some FAIL \<and> error r1 = Some INVALID_PATTERN \<and> attempts_remaining r1 = Some 2 \<and>
            result r2 = Some FAIL \<and> error r2 = Some INVALID_PATTERN \<and> attempts_remaining r2 = Some 1 \<and>
            result r3 = Some FAIL \<and> error r3 = Some MAX_ATTEMPTS \<and> t3 sid = None \<and>
            result r4 = Some FAIL \<and> error r4 = Some INVALID_SESSION"
proof -
  from start_auth_OK[OF assms(1)] assms(3)
  have s: "\<not> used s" "attempts s = 0" "maxAttempts s = 3" by auto
  let ?s1 = "s\<lparr>attempts := 1\<rparr>" and ?s2 = "s\<lparr>attempts := 2\<rparr>"
  let ?t1 = "sessions(sid \<mapsto> ?s1)" and ?t2 = "sessions(sid \<mapsto> ?s2)"
  have v1: "verify_auth sha256 stack now1 (Str sid) (Arr c1) sessions =
      ((failure 401 (Some FAIL) INVALID_PATTERN)\<lparr>attempts_remaining := Some 2\<rparr>, ?t1)"
    using verify_auth_mismatch[of sessions sid s c1 now1 stack sha256 h1] assms s by simp
  have v2: "verify_auth sha256 stack now2 (Str sid) (Arr c2) ?t1 =
      ((failure 401 (Some FAIL) INVALID_PATTERN)\<lparr>attempts_remaining := Some 1\<rparr>, ?t2)"
    using verify_auth_mismatch[of ?t1 sid ?s1 c2 now2 stack sha256 h2] assms s by simp
  have v3: "verify_auth sha256 stack now3 (Str sid) (Arr c3) ?t2 =
      (failure 401 (Some FAIL) MAX_ATTEMPTS, ?t2(sid := None))"
    using verify_auth_mismatch[of ?t2 sid ?s2 c3 now3 stack sha256 h3] assms s by simp
  have v4: "verify_auth sha256 stack now4 (Str sid) (Arr c4) (?t2(sid := None)) =
      (failure 401 (Some FAIL) INVALID_SESSION, ?t2(sid := None))"
    using verify_auth_absent[of "?t2(sid := None)" sid c4 sha256 stack now4] assms by simp
  show ?thesis
    unfolding v1 Let_def prod.case v2 v3 v4 by (simp add: failure_def)
qed

theorem three_wrong_attempts_witness:
  "let (r1, t1) = verify_auth demo_sha256 100 1700000001000 (Str demo_uuid)
                    (Arr (map Str wrong_pattern)) demo_table;
       (r2, t2) = verify_auth demo_sha256 100 1700000002000 (Str demo_uuid)
                    (Arr (map Str wrong_pattern)) t1;
       (r3, t3) = verify_auth demo_sha256 100 1700000003000 (Str demo_uuid)
                    (Arr (map Str wrong_pattern)) t2;
       (r4, t4) = verify_auth demo_sha256 100 1700000004000 (Str demo_uuid)
                    (Arr (map Str demo_secretPattern)) t3
   in result r1 = Some FAIL \<and> error r1 = Some INVALID_PATTERN \<and> attempts_remaining r1 = Some 2 \<and>
      result r2 = Some FAIL \<and> error r2 = Some INVALID_PATTERN \<and> attempts_remaining r2 = Some 1 \<and>
      result r3 = Some FAIL \<and> error r3 = Some MAX_ATTEMPTS \<and> t3 demo_uuid = None \<and>
      result r4 = Some FAIL \<and> error r4 = Some INVALID_SESSION"
proof -
  have w: "Some ''U+1F525|U+1F3A7|U+1F34E'' \<noteq> secretHash demo_session"
    by (simp add: demo_session_def)
  have e: "1700000001000 \<le> expiresAt demo_session" "1700000002000 \<le> expiresAt demo_session"
    "1700000003000 \<le> expiresAt demo_session"
    by (simp_all add: demo_session_def)
  have l: "length (map Str wrong_pattern) = 3" "length (map Str demo_secretPattern) = 3"
    by (simp_all add: wrong_pattern_def demo_secretPattern_def)
  note h = hash_wrong_pattern
  show ?thesis
    by (rule three_wrong_attempts[OF demo_start_auth demo_uuid_nonempty demo_table_lookup e
          l(1) h w l(1) h w l(1) h w l(2)])
qed

section \<open>Issuing a challenge\<close>

text \<open>
  C4. For every user of the registry, \<open>start_auth\<close> answers with status 200, the session
  id, the grid and \<open>expires_in = 60\<close>, and the table after the call is the table before it
  with one record written, under the new session id: \<open>attempts = 0\<close>, \<open>used = False\<close>,
  \<open>createdAt = now\<close> and \<open>expiresAt = createdAt + 60000\<close> milliseconds, that is 60 seconds.
  It answers as soon as the draws let the grid loop end; until then the handler is still in
  that loop, and it gives no other answer.
\<close>

theorem start_auth_creates_session:
  assumes "USER_DATABASE user = Some u"
  shows "if draws_suffice fuel rnd EMOJI_POOL demo_secretPattern
         then \<exists>g. start_auth fuel rnd uuid now (Str user) sessions =
                Some (Start_OK uuid g 60,
                      sessions(uuid \<mapsto>
                        \<lparr>sessionId = uuid, userId = user, secretHash = Some (u_secretHash u),
                         grid = g, createdAt = now, expiresAt = now + 60000, used = False,
                         attempts = 0, maxAttempts = 3\<rparr>))
         else start_auth fuel rnd uuid now (Str user) sessions = None"
proof (cases "draws_suffice fuel rnd EMOJI_POOL demo_secretPattern")
  case True
  then obtain g where
    "generateShuffledGrid fuel rnd EMOJI_POOL demo_secretPattern = Returned g"
    using generate_returns_iff by blast
  from start_auth_registered[OF assms this] True show ?thesis by auto
next
  case False
  have "\<not> set EMOJI_POOL \<subseteq> set demo_secretPattern"
    by (simp add: EMOJI_POOL_def demo_secretPattern_def)
  from generate_Running[OF this False]
  have r: "generateShuffledGrid fuel rnd EMOJI_POOL demo_secretPattern = Running" .
  from assms have "user = ''U123''"
    by (simp add: USER_DATABASE_def split: if_splits)
  then have "\<not> not_a_nonempty_string (Str user)" by simp
  moreover have "USER_DATABASE_get user = Some (Own u)"
    using assms by (simp add: USER_DATABASE_get_def)
  ultimately have "start_auth fuel rnd uuid now (Str user) sessions = None"
    using r by (simp add: start_auth_def)
  with False show ?thesis by simp
qed

theorem start_auth_creates_session_witness:
  "\<exists>g. start_auth 6 counting_draws demo_uuid 1700000000000 (Str ''U123'') Map.empty =
     Some (Start_OK demo_uuid g 60,
           [demo_uuid \<mapsto>
             \<lparr>sessionId = demo_uuid, userId = ''U123'',
              secretHash = Some ''71d9d0d740e5d44281516dc085c9ad814e4ea9570dcdcfd01cbb1971862113c8'',
              grid = g, createdAt = 1700000000000, expiresAt = 1700000060000,
              used = False, attempts = 0, maxAttempts = 3\<rparr>])"
  using start_auth_creates_session[OF demo_user, of 6 counting_draws demo_uuid 1700000000000 Map.empty]
    demo_draws_suffice
  by simp

text \<open>
  C5. For every user of the registry, and draws that let the grid loop end, the grid that
  \<open>start_auth\<close> returns has exactly 9 symbols, no symbol twice, and each symbol of the secret
  pattern exactly once. The registry holds one user, \<^verbatim>\<open>U123\<close>, whose registered pattern is
  the demo secret (the registry itself stores its digest only).
\<close>

theorem start_auth_grid:
  assumes "USER_DATABASE user = Some u"
    and "draws_suffice fuel rnd EMOJI_POOL demo_secretPattern"
  shows "\<exists>g sessions'. start_auth fuel rnd uuid now (Str user) sessions =
           Some (Start_OK uuid g 60, sessions') \<and>
         length g = 9 \<and> distinct g \<and> (\<forall>e \<in> set demo_secretPattern. count_list g e = 1)"
proof -
  from assms(2) obtain g where
    g: "generateShuffledGrid fuel rnd EMOJI_POOL demo_secretPattern = Returned g"
    using generate_returns_iff by blast
  have d: "distinct demo_secretPattern" "length demo_secretPattern \<le> 9"
    by (simp_all add: demo_secretPattern_def)
  from generate_Returned[OF g] d(2) have len: "length g = 9" by blast
  from generate_distinct[OF g d(1)] have dg: "distinct g" "set demo_secretPattern \<subseteq> set g"
    by simp_all
  have "count_list g e = 1" if "e \<in> set demo_secretPattern" for e
    using that dg by (intro count_list_distinct) auto
  with len dg(1) start_auth_registered[OF assms(1) g] show ?thesis by blast
qed

theorem start_auth_grid_witness:
  "\<exists>g sessions'. start_auth 6 counting_draws demo_uuid 1700000000000 (Str ''U123'') Map.empty =
           Some (Start_OK demo_uuid g 60, sessions') \<and>
         length g = 9 \<and> distinct g \<and> (\<forall>e \<in> set demo_secretPattern. count_list g e = 1)"
  by (rule start_auth_grid[OF demo_user demo_draws_suffice])

section \<open>When the grid generator returns\<close>




section \<open>Expiry\<close>

text \<open>
  Once the cleanup timer has removed an expired session, a verify request for it is
  answered \<open>INVALID_SESSION\<close>, not \<open>SESSION_EXPIRED\<close>; and a request with a malformed
  candidate is answered \<open>INVALID_REQUEST\<close> and leaves the expired session in the table.
\<close>

theorem expired_session_counterexample:
  "expiresAt demo_session < 1700000070000 \<and>
   fst (verify_auth demo_sha256 100 1700000070000 (Str demo_uuid) (Arr (map Str demo_secretPattern))
          (cleanupExpiredSessions 1700000065000 demo_table)) =
     \<lparr>status = 401, result = Some FAIL, error = Some INVALID_SESSION,
      attempts_remaining = None, pass_user_id = None\<rparr> \<and>
   verify_auth demo_sha256 100 1700000070000 (Str demo_uuid) (Arr [Str ''U+1F34E'', Str ''U+1F3A7''])
          demo_table =
     (\<lparr>status = 400, result = None, error = Some INVALID_REQUEST,
       attempts_remaining = None, pass_user_id = None\<rparr>, demo_table)"
  by (simp add: verify_auth_def cleanupExpiredSessions_def demo_table_def demo_session_def
      demo_uuid_def demo_secretPattern_def failure_def)

text \<open>
  C3, as amended. For every session that is still in a reachable table and whose
  \<open>expiresAt\<close> is strictly before the current time, a verify request with that session id
  and a three-element candidate removes the session and is answered \<open>SESSION_EXPIRED\<close>,
  whatever the number of attempts left; once the cleanup has removed the session, the same
  request is answered \<open>INVALID_SESSION\<close>.
\<close>

theorem expired_session_rejected:
  assumes "reachable sha256 stack sessions" and "sessions sid = Some s" and "sid \<noteq> []"
    and "expiresAt s < now" and "expiresAt s < swept" and "length candidate = 3"
  shows "verify_auth sha256 stack now (Str sid) (Arr candidate) sessions =
           (\<lparr>status = 401, result = Some FAIL, error = Some SESSION_EXPIRED,
             attempts_remaining = None, pass_user_id = None\<rparr>, sessions(sid := None)) \<and>
         verify_auth sha256 stack now (Str sid) (Arr candidate) (cleanupExpiredSessions swept sessions) =
           (\<lparr>status = 401, result = Some FAIL, error = Some INVALID_SESSION,
             attempts_remaining = None, pass_user_id = None\<rparr>,
            cleanupExpiredSessions swept sessions)"
proof -
  from reachable_table_ok[OF assms(1)] assms(2) have "\<not> used s" by (simp add: table_ok_def)
  then have "verify_auth sha256 stack now (Str sid) (Arr candidate) sessions =
           (\<lparr>status = 401, result = Some FAIL, error = Some SESSION_EXPIRED,
             attempts_remaining = None, pass_user_id = None\<rparr>, sessions(sid := None))"
    using assms by (simp add: verify_auth_def failure_def)
  moreover have "cleanupExpiredSessions swept sessions sid = None"
    using assms(2,5) by (simp add: cleanupExpiredSessions_def)
  then have "verify_auth sha256 stack now (Str sid) (Arr candidate) (cleanupExpiredSessions swept sessions) =
           (\<lparr>status = 401, result = Some FAIL, error = Some INVALID_SESSION,
             attempts_remaining = None, pass_user_id = None\<rparr>,
            cleanupExpiredSessions swept sessions)"
    using assms(3,6) by (simp add: verify_auth_absent failure_def)
  ultimately show ?thesis by blast
qed

theorem expired_session_rejected_witness:
  "verify_auth demo_sha256 100 1700000070000 (Str demo_uuid) (Arr (map Str demo_secretPattern)) demo_table =
           (\<lparr>status = 401, result = Some FAIL, error = Some SESSION_EXPIRED,
             attempts_remaining = None, pass_user_id = None\<rparr>, demo_table(demo_uuid := None)) \<and>
   verify_auth demo_sha256 100 1700000070000 (Str demo_uuid) (Arr (map Str demo_secretPattern))
       (cleanupExpiredSessions 1700000065000 demo_table) =
           (\<lparr>status = 401, result = Some FAIL, error = Some INVALID_SESSION,
             attempts_remaining = None, pass_user_id = None\<rparr>,
            cleanupExpiredSessions 1700000065000 demo_table)"
proof -
  have e: "expiresAt demo_session < 1700000070000" "expiresAt demo_session < 1700000065000"
    by (simp_all add: demo_session_def)
  have l: "length (map Str demo_secretPattern) = 3" by (simp add: demo_secretPattern_def)
  show ?thesis
    by (rule expired_session_rejected[OF demo_reachable demo_table_lookup demo_uuid_nonempty e l])
qed

section \<open>The shape of the answers\<close>

text \<open>
  The answer to a malformed request has an error code and no verdict, and so has the answer
  to a request whose candidate cannot be hashed.
\<close>

theorem failure_shape_counterexample:
  "fst (verify_auth demo_sha256 100 1700000001000 (Str demo_uuid)
          (Arr [Str ''U+1F34E'', Str ''U+1F3A7'']) demo_table) =
     \<lparr>status = 400, result = None, error = Some INVALID_REQUEST,
      attempts_remaining = None, pass_user_id = None\<rparr> \<and>
   fst (verify_auth demo_sha256 100 1700000001000 (Str demo_uuid) (Arr throwing_pattern)
          demo_table) =
     \<lparr>status = 500, result = None, error = Some INTERNAL_ERROR,
      attempts_remaining = None, pass_user_id = None\<rparr>"
proof -
  have "verify_auth demo_sha256 100 1700000001000 (Str demo_uuid) (Arr throwing_pattern) demo_table
      = (failure 500 None INTERNAL_ERROR,
         demo_table(demo_uuid \<mapsto> demo_session\<lparr>attempts := attempts demo_session + 1\<rparr>))"
    using verify_auth_throws[of demo_table demo_uuid demo_session throwing_pattern 1700000001000
        100 demo_sha256]
      demo_table_lookup demo_uuid_nonempty hash_throwing_pattern
    by (simp add: throwing_pattern_def demo_session_def)
  then show ?thesis by (simp add: verify_auth_def failure_def)
qed

text \<open>
  C7, as amended. A request that passes validation and whose candidate is hashed, or that
  is rejected before the hashing, is answered either with \<open>PASS\<close> or with status 401, the
  verdict \<open>FAIL\<close> and one of the error codes \<open>INVALID_SESSION\<close>, \<open>SESSION_USED\<close>,
  \<open>SESSION_EXPIRED\<close>, \<open>MAX_ATTEMPTS\<close>, \<open>INVALID_PATTERN\<close>. A malformed request is answered
  with status 400 and the error code \<open>INVALID_REQUEST\<close>, without a verdict. A request that
  reaches the hashing (its session is in the table, unused, not expired and below the cap)
  with a candidate on which \<^verbatim>\<open>join\<close> throws is answered with status 500 and the error code
  \<open>INTERNAL_ERROR\<close>, without a verdict.
\<close>

theorem verify_auth_failure_shape:
  "let r = fst (verify_auth sha256 stack now session_id input sessions)
   in if not_a_nonempty_string session_id \<or> not_an_array_of_3 input
      then r = \<lparr>status = 400, result = None, error = Some INVALID_REQUEST,
                attempts_remaining = None, pass_user_id = None\<rparr>
      else if hashVisualPattern stack sha256 (the_Arr input) = None \<and>
              (case sessions (the_Str session_id) of
                 None \<Rightarrow> False
               | Some s \<Rightarrow> \<not> used s \<and> now \<le> expiresAt s \<and> attempts s < maxAttempts s)
      then r = \<lparr>status = 500, result = None, error = Some INTERNAL_ERROR,
                attempts_remaining = None, pass_user_id = None\<rparr>
      else result r = Some PASS \<and> status r = 200 \<and> error r = None \<or>
           result r = Some FAIL \<and> status r = 401 \<and>
             error r \<in> {Some INVALID_SESSION, Some SESSION_USED, Some SESSION_EXPIRED,
                        Some MAX_ATTEMPTS, Some INVALID_PATTERN}"
  by (auto simp: verify_auth_def failure_def Let_def split: option.splits)

theorem verify_auth_failure_shape_witness:
  "(result (fst (verify_auth demo_sha256 100 1700000001000 (Str demo_uuid)
       (Arr (map Str wrong_pattern)) demo_table)) = Some PASS \<and>
    status (fst (verify_auth demo_sha256 100 1700000001000 (Str demo_uuid)
       (Arr (map Str wrong_pattern)) demo_table)) = 200 \<and>
    error (fst (verify_auth demo_sha256 100 1700000001000 (Str demo_uuid)
       (Arr (map Str wrong_pattern)) demo_table)) = None \<or>
    result (fst (verify_auth demo_sha256 100 1700000001000 (Str demo_uuid)
       (Arr (map Str wrong_pattern)) demo_table)) = Some FAIL \<and>
    status (fst (verify_auth demo_sha256 100 1700000001000 (Str demo_uuid)
       (Arr (map Str wrong_pattern)) demo_table)) = 401 \<and>
    error (fst (verify_auth demo_sha256 100 1700000001000 (Str demo_uuid)
       (Arr (map Str wrong_pattern)) demo_table))
      \<in> {Some INVALID_SESSION, Some SESSION_USED, Some SESSION_EXPIRED, Some MAX_ATTEMPTS,
         Some INVALID_PATTERN}) \<and>
   fst (verify_auth demo_sha256 100 1700000001000 (Str demo_uuid) (Arr throwing_pattern)
          demo_table) =
     \<lparr>status = 500, result = None, error = Some INTERNAL_ERROR,
      attempts_remaining = None, pass_user_id = None\<rparr>"
proof -
  have a: "\<not> (not_a_nonempty_string (Str demo_uuid) \<or> not_an_array_of_3 (Arr (map Str wrong_pattern)))"
    "\<not> (not_a_nonempty_string (Str demo_uuid) \<or> not_an_array_of_3 (Arr throwing_pattern))"
    by (simp_all add: demo_uuid_def wrong_pattern_def throwing_pattern_def)
  have b: "hashVisualPattern 100 demo_sha256 (the_Arr (Arr (map Str wrong_pattern))) \<noteq> None"
    by (simp add: hash_wrong_pattern)
  have c: "hashVisualPattern 100 demo_sha256 (the_Arr (Arr throwing_pattern)) = None \<and>
      (case demo_table (the_Str (Str demo_uuid)) of
         None \<Rightarrow> False
       | Some s \<Rightarrow> \<not> used s \<and> 1700000001000 \<le> expiresAt s \<and> attempts s < maxAttempts s)"
    by (simp add: hash_throwing_pattern demo_table_def demo_session_def)
  from verify_auth_failure_shape
    [of demo_sha256 100 1700000001000 "Str demo_uuid" "Arr (map Str wrong_pattern)" demo_table]
    a(1) b
  have 1: "result (fst (verify_auth demo_sha256 100 1700000001000 (Str demo_uuid)
       (Arr (map Str wrong_pattern)) demo_table)) = Some PASS \<and>
    status (fst (verify_auth demo_sha256 100 1700000001000 (Str demo_uuid)
       (Arr (map Str wrong_pattern)) demo_table)) = 200 \<and>
    error (fst (verify_auth demo_sha256 100 1700000001000 (Str demo_uuid)
       (Arr (map Str wrong_pattern)) demo_table)) = None \<or>
    result (fst (verify_auth demo_sha256 100 1700000001000 (Str demo_uuid)
       (Arr (map Str wrong_pattern)) demo_table)) = Some FAIL \<and>
    status (fst (verify_auth demo_sha256 100 1700000001000 (Str demo_uuid)
       (Arr (map Str wrong_pattern)) demo_table)) = 401 \<and>
    error (fst (verify_auth demo_sha256 100 1700000001000 (Str demo_uuid)
       (Arr (map Str wrong_pattern)) demo_table))
      \<in> {Some INVALID_SESSION, Some SESSION_USED, Some SESSION_EXPIRED, Some MAX_ATTEMPTS,
         Some INVALID_PATTERN}"
    unfolding Let_def by (simp only: if_False simp_thms)
  from verify_auth_failure_shape
    [of demo_sha256 100 1700000001000 "Str demo_uuid" "Arr throwing_pattern" demo_table]
    a(2) c
  have 2: "fst (verify_auth demo_sha256 100 1700000001000 (Str demo_uuid) (Arr throwing_pattern)
          demo_table) =
     \<lparr>status = 500, result = None, error = Some INTERNAL_ERROR,
      attempts_remaining = None, pass_user_id = None\<rparr>"
    unfolding Let_def by (simp only: if_False if_True simp_thms)
  from 1 2 show ?thesis by blast
qed

section \<open>Single use\<close>

text \<open>
  After a PASS the session is gone from the table. The same request made again is answered
  \<open>FAIL\<close> with \<open>INVALID_SESSION\<close>, not \<open>SESSION_USED\<close>, and a malformed request with the
  same session id is answered \<open>INVALID_REQUEST\<close>, without a verdict.
\<close>

theorem single_use_counterexample:
  "let (r1, t1) = verify_auth demo_sha256 100 1700000001000 (Str demo_uuid) (Arr (map Str demo_secretPattern))
                    demo_table;
       (r2, t2) = verify_auth demo_sha256 100 1700000002000 (Str demo_uuid) (Arr (map Str demo_secretPattern)) t1;
       (r3, t3) = verify_auth demo_sha256 100 1700000002000 (Str demo_uuid)
                    (Arr [Str ''U+1F34E'', Str ''U+1F3A7'']) t1
   in result r1 = Some PASS \<and>
      result r2 = Some FAIL \<and> error r2 = Some INVALID_SESSION \<and> error r2 \<noteq> Some SESSION_USED \<and>
      result r3 = None \<and> error r3 = Some INVALID_REQUEST"
  by (simp add: verify_auth_def hashVisualPattern_def js_join_def demo_sha256_def demo_table_def
      demo_session_def demo_uuid_def demo_secretPattern_def failure_def)

text \<open>
  C1, as amended. Once a verify request has been answered \<open>PASS\<close>, every later verify
  request with the same session id, after any events that do not mint that id again, is
  answered \<open>FAIL\<close> with \<open>INVALID_SESSION\<close> when its candidate has three elements and
  \<open>INVALID_REQUEST\<close> otherwise, and leaves the table as it is: it is never answered \<open>PASS\<close>,
  and never \<open>SESSION_USED\<close>.
\<close>

theorem single_use:
  assumes "verify_auth sha256 stack now session_id input sessions = (r, sessions1)"
    and "result r = Some PASS"
    and "run sha256 stack es sessions1 = Some sessions2"
    and "\<forall>e \<in> set es. \<not> mints e (the_Str session_id)"
  shows "verify_auth sha256 stack now' session_id input' sessions2 =
           (if not_an_array_of_3 input'
            then \<lparr>status = 400, result = None, error = Some INVALID_REQUEST,
                  attempts_remaining = None, pass_user_id = None\<rparr>
            else \<lparr>status = 401, result = Some FAIL, error = Some INVALID_SESSION,
                  attempts_remaining = None, pass_user_id = None\<rparr>,
            sessions2)"
proof -
  from verify_auth_PASS[of sha256 stack now session_id input sessions] assms(1,2)
  have v: "\<not> not_a_nonempty_string session_id" and gone: "sessions1 (the_Str session_id) = None"
    by simp_all
  from run_keeps_absent[OF gone assms(3,4)] have "sessions2 (the_Str session_id) = None" .
  with v show ?thesis by (simp add: verify_auth_def failure_def)
qed

theorem single_use_witness:
  "verify_auth demo_sha256 100 1700000003000 (Str demo_uuid) (Arr (map Str demo_secretPattern))
     (cleanupExpiredSessions 1700000002000 Map.empty) =
     (if not_an_array_of_3 (Arr (map Str demo_secretPattern))
      then \<lparr>status = 400, result = None, error = Some INVALID_REQUEST,
            attempts_remaining = None, pass_user_id = None\<rparr>
      else \<lparr>status = 401, result = Some FAIL, error = Some INVALID_SESSION,
            attempts_remaining = None, pass_user_id = None\<rparr>,
      cleanupExpiredSessions 1700000002000 Map.empty)"
proof -
  have v: "verify_auth demo_sha256 100 1700000001000 (Str demo_uuid) (Arr (map Str demo_secretPattern)) demo_table
      = (\<lparr>status = 200, result = Some PASS, error = None, attempts_remaining = None,
          pass_user_id = Some ''U123''\<rparr>, Map.empty)"
    by (simp add: verify_auth_def hashVisualPattern_def js_join_def demo_sha256_def demo_table_def
      demo_session_def demo_uuid_def demo_secretPattern_def)
  have r: "run demo_sha256 100 [Cleanup 1700000002000] Map.empty =
      Some (cleanupExpiredSessions 1700000002000 Map.empty)"
    by simp
  have m: "\<forall>e \<in> set [Cleanup 1700000002000]. \<not> mints e (the_Str (Str demo_uuid))" by simp
  show ?thesis
    by (rule single_use[OF v _ r m]) simp
qed

end
